theory Spec2Isabelle
  imports Main
begin

section \<open>Data of the attendance processor\<close>

text \<open>
  The model follows \<^verbatim>\<open>websitee/frontend/src/AttendanceProcessor.js\<close>. JavaScript strings
  are byte strings here; the three pictographs that the source puts in front of its status
  texts are written as their UTF-8 bytes.
\<close>

definition check_mark :: string where
  "check_mark = [CHR 0xE2, CHR 0x9C, CHR 0x85]"

definition cross_mark :: string where
  "cross_mark = [CHR 0xE2, CHR 0x9D, CHR 0x8C]"

definition warning_sign :: string where
  "warning_sign = [CHR 0xE2, CHR 0x9A, CHR 0xA0, CHR 0xEF, CHR 0xB8, CHR 0x8F]"

record user =
  name :: string
  stuId :: string

text \<open>A result object \<^verbatim>\<open>{ name, status, code }\<close>; \<open>code\<close> is \<open>None\<close> when it is undefined.\<close>

record result =
  name :: string
  status :: string
  code :: "string option"

text \<open>
  A session cookie is a string, or absent (\<open>None\<close>: undefined or null). The source tests it
  with \<^verbatim>\<open>!userCookie\<close>, so the empty string is absent as well.
\<close>

definition falsy :: "string option \<Rightarrow> bool" where
  "falsy v \<longleftrightarrow> v = None \<or> v = Some []"

text \<open>\<^verbatim>\<open>userCookies[index]\<close>: reading past the end of an array gives undefined.\<close>

definition at_index :: "string option list \<Rightarrow> nat \<Rightarrow> string option" where
  "at_index xs i = (if i < length xs then xs ! i else None)"

text \<open>
  What one \<^verbatim>\<open>fetch('/api/mark-attendance')\<close> does: the fetch promise rejects, or it resolves
  with a response whose \<^verbatim>\<open>json()\<close> either rejects (the source then takes \<^verbatim>\<open>{}\<close>) or gives
  data, of which only \<^verbatim>\<open>data?.output?.data?.code\<close> is read.
\<close>

datatype json = JsonRejected | JsonData "string option"

datatype fetch_outcome = FetchRejected | FetchResolved json

text \<open>
  The requests that leave the browser: the body of a single submission
  (\<open>stuId\<close>, \<open>attendanceId\<close>, \<open>cookie\<close>) and the body of a batch submission
  (\<open>attendanceId\<close> and, for every user, \<open>name\<close>, \<open>stuId\<close>, \<open>cookie\<close>).
\<close>

datatype request =
    MarkAttendance string string string
  | MarkAttendanceBatch string "(string \<times> string \<times> string option) list"

datatype 'a outcome = Returns 'a | Throws string

datatype 'a promise = Pending | Fulfilled 'a | Rejected string

subsection \<open>The task of one user (lines 160 to 223)\<close>

definition task_fetch :: "user \<Rightarrow> string \<Rightarrow> string option \<Rightarrow> request list" where
  "task_fetch usr attendanceId userCookie =
     (if falsy userCookie then []
      else [MarkAttendance (stuId usr) attendanceId (the userCookie)])"

definition response_code :: "json \<Rightarrow> string option" where
  "response_code d = (case d of JsonRejected \<Rightarrow> None | JsonData c \<Rightarrow> c)"

definition status_of_code :: "string option \<Rightarrow> string" where
  "status_of_code c =
     (if c = Some ''SUCCESS'' then check_mark @ '' Marked Present''
      else if c = Some ''ATTENDANCE_NOT_VALID'' then cross_mark @ '' Invalid QR''
      else warning_sign @ '' '' @ (if falsy c then ''Error'' else the c))"

definition task_result :: "user \<Rightarrow> string option \<Rightarrow> fetch_outcome \<Rightarrow> result" where
  "task_result usr userCookie out =
     (if falsy userCookie then
        \<lparr>name = user.name usr, status = cross_mark @ '' No session cookie'',
         code = Some ''COOKIE_ERROR''\<rparr>
      else case out of
        FetchResolved d \<Rightarrow>
          \<lparr>name = user.name usr, status = status_of_code (response_code d),
           code = response_code d\<rparr>
      | FetchRejected \<Rightarrow>
          \<lparr>name = user.name usr, status = cross_mark @ '' Network error'',
           code = Some ''TIMEOUT''\<rparr>)"

section \<open>The class AttendanceQueue and the event loop around it\<close>

text \<open>
  The queue holds, for every pending entry \<^verbatim>\<open>{ task, resolve, reject }\<close>, the index of its
  task. \<open>onProgress\<close> says whether a callback is installed.
\<close>

record AttendanceQueue =
  concurrency :: int
  delay :: int
  queue :: "nat list"
  running :: int
  results :: "result list"
  onProgress :: bool

definition new_AttendanceQueue :: "int \<Rightarrow> int \<Rightarrow> AttendanceQueue" where
  "new_AttendanceQueue c d =
     \<lparr>concurrency = c, delay = d, queue = [], running = 0, results = [], onProgress = False\<rparr>"

text \<open>The object passed to the progress callback: \<open>completed\<close>, \<open>total\<close>, \<open>result\<close>.\<close>

record ProgressData =
  completed :: int
  total :: int
  result :: result

text \<open>
  The asynchronous part of the program is a state of the event loop: the queue object, the
  activations of \<^verbatim>\<open>process()\<close> that are suspended at \<^verbatim>\<open>await task()\<close> (\<open>awaiting\<close>, by
  task index), the number of \<^verbatim>\<open>setTimeout\<close> callbacks not yet fired, the promise that
  \<^verbatim>\<open>add\<close> returned for each task, the progress objects emitted so far and the requests
  sent so far, each with the index of the task that sent it.
\<close>

record runtime =
  aq :: AttendanceQueue
  awaiting :: "nat list"
  timers :: nat
  promises :: "nat \<Rightarrow> result promise"
  progress :: "ProgressData list"
  sent :: "(nat \<times> request) list"

text \<open>
  A task function is given by what it sends when it is called and by how it settles.
\<close>

type_synonym task = "request list \<times> result outcome"

definition process :: "(nat \<Rightarrow> task) \<Rightarrow> runtime \<Rightarrow> runtime" where
  "process tasks s =
     (let q = aq s in
      if running q \<ge> concurrency q \<or> queue q = [] then s
      else s\<lparr>aq := q\<lparr>running := running q + 1, queue := tl (queue q)\<rparr>,
             awaiting := awaiting s @ [hd (queue q)],
             sent := sent s @ map (Pair (hd (queue q))) (fst (tasks (hd (queue q))))\<rparr>)"

definition add :: "(nat \<Rightarrow> task) \<Rightarrow> nat \<Rightarrow> runtime \<Rightarrow> runtime" where
  "add tasks i s = process tasks (s\<lparr>aq := (aq s)\<lparr>queue := queue (aq s) @ [i]\<rparr>\<rparr>)"

text \<open>The argument of the progress callback (lines 36 to 40).\<close>

definition snapshot :: "AttendanceQueue \<Rightarrow> result \<Rightarrow> ProgressData" where
  "snapshot q r =
     \<lparr>completed = int (length (AttendanceQueue.results q)) + 1,
      total = int (length (AttendanceQueue.results q)) + int (length (queue q)) + running q,
      result = r\<rparr>"

text \<open>
  The rest of \<^verbatim>\<open>process()\<close> after its \<^verbatim>\<open>await\<close>, for the \<open>k\<close>-th suspended activation:
  settle the promise, report progress, and in the \<^verbatim>\<open>finally\<close> block release the slot and
  either arm a timer or call \<^verbatim>\<open>process()\<close> again.
\<close>

definition resume :: "(nat \<Rightarrow> task) \<Rightarrow> nat \<Rightarrow> runtime \<Rightarrow> runtime" where
  "resume tasks k s =
     (if k \<ge> length (awaiting s) then s
      else
        let i = awaiting s ! k;
            q = aq s;
            s1 = s\<lparr>awaiting := take k (awaiting s) @ drop (Suc k) (awaiting s)\<rparr>;
            s2 = (case snd (tasks i) of
                    Returns r \<Rightarrow>
                      s1\<lparr>promises := (promises s1)(i := Fulfilled r),
                         progress := progress s1 @
                           (if onProgress q then [snapshot q r] else [])\<rparr>
                  | Throws e \<Rightarrow> s1\<lparr>promises := (promises s1)(i := Rejected e)\<rparr>);
            s3 = s2\<lparr>aq := q\<lparr>running := running q - 1\<rparr>\<rparr>
        in if queue q \<noteq> [] then s3\<lparr>timers := timers s3 + 1\<rparr> else process tasks s3)"

text \<open>A timer armed by \<^verbatim>\<open>setTimeout(() => this.process(), this.delay)\<close> fires.\<close>

definition timeout :: "(nat \<Rightarrow> task) \<Rightarrow> runtime \<Rightarrow> runtime" where
  "timeout tasks s =
     (if timers s = 0 then s else process tasks (s\<lparr>timers := timers s - 1\<rparr>))"

definition clear :: "runtime \<Rightarrow> runtime" where
  "clear s = s\<lparr>aq := (aq s)\<lparr>queue := [], results := [], running := 0\<rparr>\<rparr>"

definition setProgressCallback :: "runtime \<Rightarrow> runtime" where
  "setProgressCallback s = s\<lparr>aq := (aq s)\<lparr>onProgress := True\<rparr>\<rparr>"

text \<open>
  What the environment decides: which suspended task settles next, and when a timer fires.
  An event that cannot happen in the current state leaves it unchanged. Time is not
  measured: a timer may fire at any moment after it was armed, and a task may take
  arbitrarily long to settle (the fetch of the source has no timeout of its own), so the
  schedules of the model include every order in which the program can observe its events.
\<close>

datatype env_event = Settle nat | Timer

fun env_step :: "(nat \<Rightarrow> task) \<Rightarrow> env_event \<Rightarrow> runtime \<Rightarrow> runtime" where
  "env_step tasks (Settle k) s = resume tasks k s"
| "env_step tasks Timer s = timeout tasks s"

section \<open>The hook useAttendanceProcessor\<close>

record report =
  success :: bool
  total :: nat
  successful :: nat
  failed :: nat
  results :: "result list"

text \<open>
  What an invocation of one of the three asynchronous functions of the hook shows to its
  caller and to the outside: the state of the promise it returned (its value is undefined or
  a report), the alerts shown, the requests it sent and the progress objects emitted since
  it began to use the queue.
\<close>

datatype returned = Undefined | Report report

record invocation =
  outcome :: "returned promise"
  alerts :: "string list"
  requests :: "request list"
  snapshots :: "ProgressData list"

subsection \<open>The queue of the hook\<close>

text \<open>
  The hook constructs one queue, \<^verbatim>\<open>new AttendanceQueue(3, 300)\<close> (line 69), and the memoised
  callbacks keep using it: every invocation of \<^verbatim>\<open>processQueueAttendance\<close> works on the
  same object, whatever earlier invocations have left in it, and nothing keeps a caller
  from invoking it again while an invocation is running. An invocation begins with
  \<^verbatim>\<open>queue.clear()\<close>, \<^verbatim>\<open>queue.setProgressCallback(...)\<close> and the \<^verbatim>\<open>queue.add\<close> of its tasks in
  index order, all before its first \<^verbatim>\<open>await\<close> (lines 146 to 224).
\<close>

definition begin_invocation :: "(nat \<Rightarrow> task) \<Rightarrow> nat list \<Rightarrow> runtime \<Rightarrow> runtime" where
  "begin_invocation tasks ids s = fold (add tasks) ids (setProgressCallback (clear s))"

text \<open>
  The invocation under study has the tasks \<open>0, ..., n - 1\<close>. Around it the hook sees the
  events of the environment and other invocations of \<^verbatim>\<open>processQueueAttendance\<close>:
  \<open>Invoke m\<close> is one with \<open>m\<close> users. Their tasks are numbered from \<open>n\<close> on in the order
  of their creation; \<open>created\<close> counts them.
\<close>

datatype hook_event = Invoke nat | Env env_event

record hook_state =
  shared :: runtime
  created :: nat

fun hook_step :: "(nat \<Rightarrow> task) \<Rightarrow> nat \<Rightarrow> hook_event \<Rightarrow> hook_state \<Rightarrow> hook_state" where
  "hook_step tasks n (Invoke m) h =
     \<lparr>shared = begin_invocation tasks [n + created h..<n + created h + m] (shared h),
      created = created h + m\<rparr>"
| "hook_step tasks n (Env e) h = h\<lparr>shared := env_step tasks e (shared h)\<rparr>"

definition idle_runtime :: "AttendanceQueue \<Rightarrow> runtime" where
  "idle_runtime q =
     \<lparr>aq = q, awaiting = [], timers = 0, promises = (\<lambda>_. Pending), progress = [], sent = []\<rparr>"

definition new_hook :: hook_state where
  "new_hook = \<lparr>shared = idle_runtime (new_AttendanceQueue 3 300), created = 0\<rparr>"

text \<open>
  The state in which the invocation finds the hook after the events \<open>before\<close>, the state
  when it has added its tasks, and the state after the further events \<open>after\<close>.
\<close>

definition queue_found :: "(nat \<Rightarrow> task) \<Rightarrow> nat \<Rightarrow> hook_event list \<Rightarrow> hook_state" where
  "queue_found tasks n before = fold (hook_step tasks n) before new_hook"

definition queue_start :: "(nat \<Rightarrow> task) \<Rightarrow> nat \<Rightarrow> hook_event list \<Rightarrow> hook_state" where
  "queue_start tasks n before =
     (let h = queue_found tasks n before
      in h\<lparr>shared := begin_invocation tasks [0..<n] (shared h)\<rparr>)"

definition queue_run ::
  "(nat \<Rightarrow> task) \<Rightarrow> nat \<Rightarrow> hook_event list \<Rightarrow> hook_event list \<Rightarrow> hook_state" where
  "queue_run tasks n before after = fold (hook_step tasks n) after (queue_start tasks n before)"

subsection \<open>processQueueAttendance (lines 137 to 261)\<close>

text \<open>
  The task that \<^verbatim>\<open>users.map\<close> creates for \<open>index\<close>; \<open>remote index\<close> is what the fetch of
  this task does. \<open>others\<close> are the tasks of the other invocations.
\<close>

definition queue_tasks ::
  "user list \<Rightarrow> string \<Rightarrow> string option list \<Rightarrow> (nat \<Rightarrow> fetch_outcome) \<Rightarrow> nat \<Rightarrow> task" where
  "queue_tasks users attendanceId userCookies remote index =
     (let usr = users ! index; userCookie = at_index userCookies index
      in (task_fetch usr attendanceId userCookie,
          Returns (task_result usr userCookie (remote index))))"

definition hook_tasks ::
  "user list \<Rightarrow> string \<Rightarrow> string option list \<Rightarrow> (nat \<Rightarrow> fetch_outcome) \<Rightarrow> (nat \<Rightarrow> task)
     \<Rightarrow> nat \<Rightarrow> task" where
  "hook_tasks users attendanceId userCookies remote others i =
     (if i < length users then queue_tasks users attendanceId userCookies remote i
      else others (i - length users))"

text \<open>
  The loop over the outcome of \<^verbatim>\<open>Promise.allSettled(tasks)\<close> (lines 228 to 238) and the
  report (lines 240 to 249). \<^verbatim>\<open>Promise.allSettled\<close> settles once every promise has; until
  then the invocation is pending. Nothing in the \<^verbatim>\<open>try\<close> block throws on user objects
  that have a name, so the \<^verbatim>\<open>catch\<close> of line 251 has no branch here.
\<close>

definition processedResults :: "user list \<Rightarrow> (nat \<Rightarrow> result promise) \<Rightarrow> result list" where
  "processedResults users ps =
     map (\<lambda>index. case ps index of
                     Fulfilled v \<Rightarrow> v
                   | _ \<Rightarrow> \<lparr>name = user.name (users ! index),
                           status = cross_mark @ '' Processing failed'',
                           code = Some ''ERROR''\<rparr>)
       [0..<length users]"

definition queue_report :: "result list \<Rightarrow> report" where
  "queue_report rs =
     (let successful = length (filter (\<lambda>r. code r = Some ''SUCCESS'') rs)
      in \<lparr>success = True, total = length rs, successful = successful,
          failed = length rs - successful, results = rs\<rparr>)"

definition allSettled :: "nat \<Rightarrow> (nat \<Rightarrow> result promise) \<Rightarrow> bool" where
  "allSettled n ps = list_all (\<lambda>index. ps index \<noteq> Pending) [0..<n]"

text \<open>The requests that the tasks of the invocation itself have sent.\<close>

definition own_requests :: "nat \<Rightarrow> (nat \<times> request) list \<Rightarrow> request list" where
  "own_requests n log = map snd (filter (\<lambda>entry. fst entry < n) log)"

definition processQueueAttendance ::
  "user list \<Rightarrow> string \<Rightarrow> string option list \<Rightarrow> (nat \<Rightarrow> fetch_outcome) \<Rightarrow> (nat \<Rightarrow> task)
     \<Rightarrow> hook_event list \<Rightarrow> hook_event list \<Rightarrow> invocation" where
  "processQueueAttendance users attendanceId userCookies remote others before after =
     (let tasks = hook_tasks users attendanceId userCookies remote others;
          found = shared (queue_found tasks (length users) before);
          s = shared (queue_run tasks (length users) before after)
      in \<lparr>outcome =
            (if allSettled (length users) (promises s)
             then Fulfilled (Report (queue_report (processedResults users (promises s))))
             else Pending),
          alerts = [],
          requests = own_requests (length users) (sent s),
          snapshots = drop (length (progress found)) (progress s)\<rparr>)"

subsection \<open>processBatchAttendance (lines 72 to 134)\<close>

text \<open>
  A row of \<^verbatim>\<open>data.results\<close> is \<open>name\<close>, \<open>status\<close> and an optional \<open>error\<close>. The answer of
  the batch endpoint: the fetch rejects, the response is not ok (with its status text), its
  \<^verbatim>\<open>json()\<close> rejects, or it gives data with \<open>total\<close>, \<open>successful\<close>, \<open>failed\<close> and
  \<open>results\<close>, where \<open>None\<close> stands for every body on which \<^verbatim>\<open>data.results.map\<close> throws.
\<close>

datatype batch_row = BatchRow string string "string option"

datatype batch_outcome =
    BatchFetchRejected
  | BatchNotOk string
  | BatchJsonRejected
  | BatchJson nat nat nat "batch_row list option"

fun format_row :: "batch_row \<Rightarrow> result" where
  "format_row (BatchRow n st err) =
     \<lparr>name = n,
      status = (if st = ''success'' then check_mark @ '' Marked Present''
                else cross_mark @ '' '' @ (if falsy err then ''Failed'' else the err)),
      code = Some (if st = ''success'' then ''SUCCESS'' else ''ERROR'')\<rparr>"

definition usersWithCookies ::
  "user list \<Rightarrow> string option list \<Rightarrow> (string \<times> string \<times> string option) list" where
  "usersWithCookies users userCookies =
     map (\<lambda>index. (user.name (users ! index), stuId (users ! index), at_index userCookies index))
       [0..<length users]"

text \<open>The \<^verbatim>\<open>try\<close> block completes exactly on these answers; on all others it throws.\<close>

fun batch_report :: "batch_outcome \<Rightarrow> report option" where
  "batch_report (BatchJson t s f (Some rows)) =
     Some \<lparr>success = True, total = t, successful = s, failed = f, results = map format_row rows\<rparr>"
| "batch_report _ = None"

definition processBatchAttendance ::
  "user list \<Rightarrow> string \<Rightarrow> string option list \<Rightarrow> batch_outcome \<Rightarrow> (nat \<Rightarrow> fetch_outcome)
     \<Rightarrow> (nat \<Rightarrow> task) \<Rightarrow> hook_event list \<Rightarrow> hook_event list \<Rightarrow> invocation" where
  "processBatchAttendance users attendanceId userCookies batch remote others before after =
     (let req = MarkAttendanceBatch attendanceId (usersWithCookies users userCookies)
      in case batch_report batch of
           Some rep \<Rightarrow>
             \<lparr>outcome = Fulfilled (Report rep), alerts = [], requests = [req], snapshots = []\<rparr>
         | None \<Rightarrow>
             (let r = processQueueAttendance users attendanceId userCookies remote others
                        before after
              in r\<lparr>requests := req # requests r\<rparr>))"

subsection \<open>processAttendance (lines 264 to 281)\<close>

text \<open>
  \<open>userCookies\<close> is \<open>None\<close> when the caller passes undefined or null. \<open>before\<close> are the
  events of the hook until the invocation reaches the queue, if it does.
\<close>

definition processAttendance ::
  "string \<Rightarrow> user list \<Rightarrow> string \<Rightarrow> string option list option \<Rightarrow> batch_outcome
     \<Rightarrow> (nat \<Rightarrow> fetch_outcome) \<Rightarrow> (nat \<Rightarrow> task) \<Rightarrow> hook_event list \<Rightarrow> hook_event list
     \<Rightarrow> invocation" where
  "processAttendance processingMethod users attendanceId userCookies batch remote others
       before after =
     (if users = [] then
        \<lparr>outcome = Fulfilled Undefined,
         alerts = [''No users loaded yet. Please add users first.''],
         requests = [], snapshots = []\<rparr>
      else if userCookies = None \<or> length (the userCookies) \<noteq> length users then
        \<lparr>outcome = Fulfilled Undefined,
         alerts = [''Cookies not loaded yet. Please wait a moment and try again.''],
         requests = [], snapshots = []\<rparr>
      else if processingMethod = ''batch'' \<and> length users \<ge> 5 then
        processBatchAttendance users attendanceId (the userCookies) batch remote others
          before after
      else
        processQueueAttendance users attendanceId (the userCookies) remote others
          before after)"

section \<open>The retry loop of the technical report\<close>





section \<open>Invariants of the shared queue\<close>

text \<open>
  Whatever the hook has done, a settled promise holds what its own task returned, every
  request in the log was sent by the task it is logged for, and the tasks of the
  invocation under study have sent at most as many requests as have been admitted. A task
  that is neither queued nor in flight is \<open>absent\<close> from the queue.
\<close>

definition settled_as :: "result outcome \<Rightarrow> result promise" where
  "settled_as out = (case out of Returns r \<Rightarrow> Fulfilled r | Throws e \<Rightarrow> Rejected e)"

definition admit :: "(nat \<Rightarrow> task) \<Rightarrow> runtime \<Rightarrow> runtime" where
  "admit tasks s =
     s\<lparr>aq := (aq s)\<lparr>running := running (aq s) + 1, queue := tl (queue (aq s))\<rparr>,
       awaiting := awaiting s @ [hd (queue (aq s))],
       sent := sent s @ map (Pair (hd (queue (aq s)))) (fst (tasks (hd (queue (aq s)))))\<rparr>"

definition admits :: "runtime \<Rightarrow> bool" where
  "admits s \<longleftrightarrow> running (aq s) < concurrency (aq s) \<and> queue (aq s) \<noteq> []"

definition enqueue :: "nat \<Rightarrow> runtime \<Rightarrow> runtime" where
  "enqueue i s = s\<lparr>aq := (aq s)\<lparr>queue := queue (aq s) @ [i]\<rparr>\<rparr>"

definition values_ok :: "(nat \<Rightarrow> task) \<Rightarrow> runtime \<Rightarrow> bool" where
  "values_ok tasks s \<longleftrightarrow>
     (\<forall>i. promises s i = Pending \<or> promises s i = settled_as (snd (tasks i)))"

definition sent_ok :: "(nat \<Rightarrow> task) \<Rightarrow> runtime \<Rightarrow> bool" where
  "sent_ok tasks s \<longleftrightarrow> (\<forall>entry \<in> set (sent s). snd entry \<in> set (fst (tasks (fst entry))))"



definition absent :: "nat \<Rightarrow> runtime \<Rightarrow> bool" where
  "absent i s \<longleftrightarrow> i \<notin> set (awaiting s) \<and> i \<notin> set (queue (aq s))"

section \<open>The shared queue maintains its invariants\<close>

subsection \<open>The operations of the queue, field by field\<close>

lemma process_cases: "process tasks s = (if admits s then admit tasks s else s)"
  by (auto simp: process_def admit_def admits_def Let_def)

lemma admit_fields [simp]:
  "running (aq (admit tasks s)) = running (aq s) + 1"
  "queue (aq (admit tasks s)) = tl (queue (aq s))"
  "concurrency (aq (admit tasks s)) = concurrency (aq s)"
  "awaiting (admit tasks s) = awaiting s @ [hd (queue (aq s))]"
  "sent (admit tasks s) = sent s @ map (Pair (hd (queue (aq s)))) (fst (tasks (hd (queue (aq s)))))"
  "promises (admit tasks s) = promises s"
  "progress (admit tasks s) = progress s"
  by (simp_all add: admit_def)

lemma enqueue_fields [simp]:
  "queue (aq (enqueue i s)) = queue (aq s) @ [i]"
  "awaiting (enqueue i s) = awaiting s"
  "sent (enqueue i s) = sent s"
  "promises (enqueue i s) = promises s"
  by (simp_all add: enqueue_def)

lemma add_cases: "add tasks i s = process tasks (enqueue i s)"
  by (simp add: add_def enqueue_def)

lemma resume_idle: "length (awaiting s) \<le> k \<Longrightarrow> resume tasks k s = s"
  by (simp add: resume_def)

lemma resume_fields:
  assumes "k < length (awaiting s)"
  shows "awaiting (resume tasks k s) = take k (awaiting s) @ drop (Suc k) (awaiting s)"
    and "queue (aq (resume tasks k s)) = queue (aq s)"
    and "sent (resume tasks k s) = sent s"
    and "promises (resume tasks k s) =
           (promises s)(awaiting s ! k := settled_as (snd (tasks (awaiting s ! k))))"
  using assms
  by (auto simp: resume_def Let_def process_cases admits_def settled_as_def
           split: outcome.splits)

lemma timeout_cases:
  "timeout tasks s = (if timers s = 0 then s else process tasks (s\<lparr>timers := timers s - 1\<rparr>))"
  by (simp add: timeout_def)

lemma clear_fields [simp]:
  "queue (aq (clear s)) = []"
  "awaiting (clear s) = awaiting s"
  "sent (clear s) = sent s"
  "promises (clear s) = promises s"
  by (simp_all add: clear_def)

lemma setProgressCallback_fields [simp]:
  "queue (aq (setProgressCallback s)) = queue (aq s)"
  "awaiting (setProgressCallback s) = awaiting s"
  "sent (setProgressCallback s) = sent s"
  "promises (setProgressCallback s) = promises s"
  by (simp_all add: setProgressCallback_def)

subsection \<open>A settled promise holds the value of its own task\<close>

lemma values_process: "values_ok tasks s \<Longrightarrow> values_ok tasks (process tasks s)"
  by (simp add: process_cases values_ok_def)

lemma values_add: "values_ok tasks s \<Longrightarrow> values_ok tasks (add tasks i s)"
  by (simp add: add_cases process_cases values_ok_def)

lemma values_resume: "values_ok tasks s \<Longrightarrow> values_ok tasks (resume tasks k s)"
  by (cases "k < length (awaiting s)") (auto simp: values_ok_def resume_fields resume_idle)

lemma values_timeout: "values_ok tasks s \<Longrightarrow> values_ok tasks (timeout tasks s)"
  by (simp add: timeout_cases process_cases values_ok_def)

lemma values_adds: "values_ok tasks s \<Longrightarrow> values_ok tasks (fold (add tasks) ids s)"
  by (induction ids arbitrary: s) (simp_all add: values_add)

lemma values_begin: "values_ok tasks s \<Longrightarrow> values_ok tasks (begin_invocation tasks ids s)"
  unfolding begin_invocation_def by (rule values_adds) (simp add: values_ok_def)

lemma values_hook_step:
  "values_ok tasks (shared h) \<Longrightarrow> values_ok tasks (shared (hook_step tasks n e h))"
proof (cases e)
  case (Invoke m)
  assume "values_ok tasks (shared h)"
  then show ?thesis by (simp add: Invoke values_begin)
next
  case (Env ev)
  assume "values_ok tasks (shared h)"
  then show ?thesis by (cases ev) (simp_all add: Env values_resume values_timeout)
qed

lemma values_hook_steps:
  "values_ok tasks (shared h) \<Longrightarrow> values_ok tasks (shared (fold (hook_step tasks n) es h))"
  by (induction es arbitrary: h) (simp_all add: values_hook_step)

lemma values_new_hook: "values_ok tasks (shared new_hook)"
  by (simp add: values_ok_def new_hook_def idle_runtime_def)

lemma values_queue_run: "values_ok tasks (shared (queue_run tasks n before after))"
proof -
  have "values_ok tasks (shared (queue_found tasks n before))"
    unfolding queue_found_def by (rule values_hook_steps [OF values_new_hook])
  then have "values_ok tasks (shared (queue_start tasks n before))"
    by (simp add: queue_start_def Let_def values_begin)
  then show ?thesis unfolding queue_run_def by (rule values_hook_steps)
qed

subsection \<open>Every logged request was sent by the task it is logged for\<close>

lemma sent_process: "sent_ok tasks s \<Longrightarrow> sent_ok tasks (process tasks s)"
  by (auto simp: process_cases sent_ok_def)

lemma sent_add: "sent_ok tasks s \<Longrightarrow> sent_ok tasks (add tasks i s)"
proof -
  assume "sent_ok tasks s"
  then have "sent_ok tasks (enqueue i s)" by (simp add: sent_ok_def)
  then show ?thesis unfolding add_cases by (rule sent_process)
qed

lemma sent_resume: "sent_ok tasks s \<Longrightarrow> sent_ok tasks (resume tasks k s)"
  by (cases "k < length (awaiting s)") (auto simp: sent_ok_def resume_fields resume_idle)

lemma sent_timeout: "sent_ok tasks s \<Longrightarrow> sent_ok tasks (timeout tasks s)"
proof -
  assume a: "sent_ok tasks s"
  then have "sent_ok tasks (s\<lparr>timers := timers s - 1\<rparr>)" by (simp add: sent_ok_def)
  then have "sent_ok tasks (process tasks (s\<lparr>timers := timers s - 1\<rparr>))" by (rule sent_process)
  then show ?thesis using a by (simp add: timeout_cases)
qed

lemma sent_adds: "sent_ok tasks s \<Longrightarrow> sent_ok tasks (fold (add tasks) ids s)"
  by (induction ids arbitrary: s) (simp_all add: sent_add)

lemma sent_begin: "sent_ok tasks s \<Longrightarrow> sent_ok tasks (begin_invocation tasks ids s)"
  unfolding begin_invocation_def by (rule sent_adds) (simp add: sent_ok_def)

lemma sent_hook_step:
  "sent_ok tasks (shared h) \<Longrightarrow> sent_ok tasks (shared (hook_step tasks n e h))"
proof (cases e)
  case (Invoke m)
  assume "sent_ok tasks (shared h)"
  then show ?thesis by (simp add: Invoke sent_begin)
next
  case (Env ev)
  assume "sent_ok tasks (shared h)"
  then show ?thesis by (cases ev) (simp_all add: Env sent_resume sent_timeout)
qed

lemma sent_hook_steps:
  "sent_ok tasks (shared h) \<Longrightarrow> sent_ok tasks (shared (fold (hook_step tasks n) es h))"
  by (induction es arbitrary: h) (simp_all add: sent_hook_step)

lemma sent_queue_run: "sent_ok tasks (shared (queue_run tasks n before after))"
proof -
  have "sent_ok tasks (shared new_hook)"
    by (simp add: sent_ok_def new_hook_def idle_runtime_def)
  then have "sent_ok tasks (shared (queue_found tasks n before))"
    unfolding queue_found_def by (rule sent_hook_steps)
  then have "sent_ok tasks (shared (queue_start tasks n before))"
    by (simp add: queue_start_def Let_def sent_begin)
  then show ?thesis unfolding queue_run_def by (rule sent_hook_steps)
qed

subsection \<open>At most one request for every task of the invocation\<close>

lemma own_requests_append [simp]:
  "own_requests n (xs @ ys) = own_requests n xs @ own_requests n ys"
  by (simp add: own_requests_def)













subsection \<open>A task that has left the queue unsettled stays unsettled\<close>

lemma absent_process:
  "absent i s \<Longrightarrow> absent i (process tasks s) \<and> promises (process tasks s) i = promises s i"
  by (cases "queue (aq s)") (auto simp: process_cases admits_def absent_def)

lemma absent_add:
  assumes "absent i s" "j \<noteq> i"
  shows "absent i (add tasks j s) \<and> promises (add tasks j s) i = promises s i"
proof -
  have "absent i (enqueue j s)" using assms by (simp add: absent_def)
  from absent_process [OF this, of tasks] show ?thesis by (simp add: add_cases)
qed

lemma absent_resume:
  assumes "absent i s"
  shows "absent i (resume tasks k s) \<and> promises (resume tasks k s) i = promises s i"
proof (cases "k < length (awaiting s)")
  case False
  then show ?thesis using assms by (simp add: resume_idle)
next
  case True
  then have "awaiting s ! k \<in> set (awaiting s)" by simp
  then have "awaiting s ! k \<noteq> i" using assms by (auto simp: absent_def)
  moreover have "i \<notin> set (take k (awaiting s) @ drop (Suc k) (awaiting s))"
    using assms by (auto simp: absent_def dest: in_set_takeD in_set_dropD)
  ultimately show ?thesis using assms True by (simp add: absent_def resume_fields)
qed

lemma absent_timeout:
  assumes "absent i s"
  shows "absent i (timeout tasks s) \<and> promises (timeout tasks s) i = promises s i"
proof -
  have "absent i (s\<lparr>timers := timers s - 1\<rparr>)" using assms by (simp add: absent_def)
  from absent_process [OF this, of tasks] show ?thesis using assms by (simp add: timeout_cases)
qed

lemma absent_adds:
  "absent i s \<Longrightarrow> i \<notin> set ids \<Longrightarrow>
   absent i (fold (add tasks) ids s) \<and> promises (fold (add tasks) ids s) i = promises s i"
proof (induction ids arbitrary: s)
  case Nil
  then show ?case by simp
next
  case (Cons j ids)
  then have "j \<noteq> i" "i \<notin> set ids" by auto
  from absent_add [OF Cons.prems(1) this(1), of tasks] Cons.IH [of "add tasks j s"] this(2)
  show ?case by simp
qed

lemma absent_hook_step:
  assumes "absent i (shared h)" "i < n"
  shows "absent i (shared (hook_step tasks n e h)) \<and>
         promises (shared (hook_step tasks n e h)) i = promises (shared h) i"
proof (cases e)
  case (Invoke m)
  have a: "absent i (setProgressCallback (clear (shared h)))"
    using assms(1) by (simp add: absent_def)
  have "i \<notin> set [n + created h..<n + created h + m]" using assms(2) by simp
  from absent_adds [OF a this, of tasks] show ?thesis
    by (simp add: Invoke begin_invocation_def)
next
  case (Env ev)
  show ?thesis using assms(1)
    by (cases ev) (simp_all add: Env absent_resume absent_timeout)
qed

lemma absent_hook_steps:
  "absent i (shared h) \<Longrightarrow> i < n \<Longrightarrow>
   promises (shared (fold (hook_step tasks n) es h)) i = promises (shared h) i"
proof (induction es arbitrary: h)
  case Nil
  then show ?case by simp
next
  case (Cons e es)
  from absent_hook_step [OF Cons.prems, of tasks e]
  have "absent i (shared (hook_step tasks n e h))"
    and "promises (shared (hook_step tasks n e h)) i = promises (shared h) i"
    by simp_all
  with Cons.IH [of "hook_step tasks n e h"] Cons.prems(2) show ?case by simp
qed

subsection \<open>The report of the queue path\<close>

lemma allSettled_iff: "allSettled n ps \<longleftrightarrow> (\<forall>i<n. ps i \<noteq> Pending)"
  by (auto simp: allSettled_def list_all_iff)

lemma settled_as_not_Pending [simp]: "settled_as out \<noteq> Pending"
  by (simp add: settled_as_def split: outcome.splits)

lemma hook_tasks_own:
  "i < length users \<Longrightarrow>
   hook_tasks users attendanceId userCookies remote others i
     = queue_tasks users attendanceId userCookies remote i"
  by (simp add: hook_tasks_def)

lemma settled_results:
  assumes "values_ok tasks s" "allSettled (length users) (promises s)"
    and "\<forall>i<length users. snd (tasks i) = Returns (f i)"
  shows "processedResults users (promises s) = map f [0..<length users]"
proof -
  have "\<And>i. i < length users \<Longrightarrow> promises s i = Fulfilled (f i)"
    using assms by (auto simp: values_ok_def allSettled_iff settled_as_def)
  then show ?thesis by (simp add: processedResults_def)
qed

lemma queue_outcome_cases:
  "outcome (processQueueAttendance users attendanceId userCookies remote others before after)
     = Pending \<or>
   outcome (processQueueAttendance users attendanceId userCookies remote others before after) =
     Fulfilled (Report (queue_report
       (map (\<lambda>index. task_result (users ! index) (at_index userCookies index) (remote index))
          [0..<length users])))"
proof -
  let ?tasks = "hook_tasks users attendanceId userCookies remote others"
  let ?s = "shared (queue_run ?tasks (length users) before after)"
  have v: "values_ok ?tasks ?s" by (rule values_queue_run)
  have r: "\<forall>i<length users. snd (?tasks i) =
      Returns (task_result (users ! i) (at_index userCookies i) (remote i))"
    by (simp add: hook_tasks_own queue_tasks_def Let_def)
  have "allSettled (length users) (promises ?s) \<Longrightarrow>
      processedResults users (promises ?s) =
        map (\<lambda>index. task_result (users ! index) (at_index userCookies index) (remote index))
          [0..<length users]"
    using v _ r by (rule settled_results)
  then show ?thesis by (auto simp: processQueueAttendance_def Let_def)
qed

lemma queue_report_fields:
  "results (queue_report rs) = rs"
  "total (queue_report rs) = length rs"
  "successful (queue_report rs) = length (filter (\<lambda>r. code r = Some ''SUCCESS'') rs)"
  "failed (queue_report rs) = length rs - length (filter (\<lambda>r. code r = Some ''SUCCESS'') rs)"
  by (simp_all add: queue_report_def Let_def)

lemma name_task_result [simp]: "result.name (task_result usr c out) = user.name usr"
  by (simp add: task_result_def split: fetch_outcome.splits)

lemma names_in_order:
  "map result.name
     (map (\<lambda>index. task_result (users ! index) (at_index userCookies index) (remote index))
        [0..<length users])
   = map user.name users"
  by (rule nth_equalityI) simp_all

subsection \<open>The requests of the queue path\<close>

lemma requests_queue:
  "requests (processQueueAttendance users attendanceId userCookies remote others before after)
     = own_requests (length users)
         (sent (shared (queue_run (hook_tasks users attendanceId userCookies remote others)
            (length users) before after)))"
  by (simp add: processQueueAttendance_def Let_def)

lemma queue_requests_origin:
  "\<forall>req \<in> set (requests
       (processQueueAttendance users attendanceId userCookies remote others before after)).
     \<exists>i<length users. \<not> falsy (at_index userCookies i) \<and>
       req = MarkAttendance (stuId (users ! i)) attendanceId (the (at_index userCookies i))"
proof
  fix req
  let ?tasks = "hook_tasks users attendanceId userCookies remote others"
  let ?s = "shared (queue_run ?tasks (length users) before after)"
  assume "req \<in> set (requests
       (processQueueAttendance users attendanceId userCookies remote others before after))"
  then obtain i where i: "(i, req) \<in> set (sent ?s)" "i < length users"
    by (auto simp: requests_queue own_requests_def)
  have "sent_ok ?tasks ?s" by (rule sent_queue_run)
  then have "req \<in> set (fst (?tasks i))" using i(1) by (auto simp: sent_ok_def)
  then have "req \<in> set (task_fetch (users ! i) attendanceId (at_index userCookies i))"
    using i(2) by (simp add: hook_tasks_own queue_tasks_def Let_def)
  then have "\<not> falsy (at_index userCookies i) \<and>
       req = MarkAttendance (stuId (users ! i)) attendanceId (the (at_index userCookies i))"
    by (auto simp: task_fetch_def split: if_splits)
  then show "\<exists>i<length users. \<not> falsy (at_index userCookies i) \<and>
       req = MarkAttendance (stuId (users ! i)) attendanceId (the (at_index userCookies i))"
    using i(2) by blast
qed

lemma queue_sends_no_batch:
  "MarkAttendanceBatch a us
     \<notin> set (requests
         (processQueueAttendance users attendanceId userCookies remote others before after))"
  using queue_requests_origin [of users attendanceId userCookies remote others before after]
  by auto



lemma code_SUCCESS_iff:
  "code (task_result usr c out) = Some ''SUCCESS''
   \<longleftrightarrow> \<not> falsy c \<and> out = FetchResolved (JsonData (Some ''SUCCESS''))"
  by (auto simp: task_result_def response_code_def split: fetch_outcome.splits json.splits)

lemma length_filter_not:
  "length (filter (\<lambda>x. \<not> P x) xs) = length xs - length (filter P xs)"
  using sum_length_filter_compl [of P xs] by simp

subsection \<open>The retry loop\<close>




subsection \<open>The batch path\<close>

lemma batch_fallback:
  "batch_report batch = None \<Longrightarrow>
   processBatchAttendance users attendanceId userCookies batch remote others before after =
     (processQueueAttendance users attendanceId userCookies remote others before after)
       \<lparr>requests := MarkAttendanceBatch attendanceId (usersWithCookies users userCookies)
          # requests (processQueueAttendance users attendanceId userCookies remote others
              before after)\<rparr>"
  by (simp add: processBatchAttendance_def Let_def)

lemma batch_answered:
  "batch_report batch = Some rep \<Longrightarrow>
   processBatchAttendance users attendanceId userCookies batch remote others before after =
     \<lparr>outcome = Fulfilled (Report rep), alerts = [],
      requests = [MarkAttendanceBatch attendanceId (usersWithCookies users userCookies)],
      snapshots = []\<rparr>"
  by (simp add: processBatchAttendance_def Let_def)

subsection \<open>An invocation overtaken by another one\<close>

lemma dropped_task_pending:
  assumes "i < length users"
    and "absent i (shared (fold (hook_step tasks (length users)) evs
           (queue_start tasks (length users) before)))"
    and "promises (shared (fold (hook_step tasks (length users)) evs
           (queue_start tasks (length users) before))) i = Pending"
  shows "\<not> allSettled (length users)
           (promises (shared (queue_run tasks (length users) before (evs @ ext))))"
proof -
  let ?h = "fold (hook_step tasks (length users)) evs (queue_start tasks (length users) before)"
  have "promises (shared (fold (hook_step tasks (length users)) ext ?h)) i = promises (shared ?h) i"
    using assms(2,1) by (rule absent_hook_steps)
  then have "promises (shared (queue_run tasks (length users) before (evs @ ext))) i = Pending"
    using assms(3) by (simp add: queue_run_def)
  then show ?thesis using assms(1) by (auto simp: allSettled_iff)
qed

section \<open>Properties of the pipeline\<close>

text \<open>
  Claim C1, which the code breaks. With four users the queue admits three tasks and
  queues the fourth. When another invocation begins before the fourth is admitted, its
  \<^verbatim>\<open>queue.clear()\<close> (line 146) empties the shared queue: the fourth entry is dropped with
  its \<^verbatim>\<open>resolve\<close>, its promise never settles, \<^verbatim>\<open>Promise.allSettled\<close> never does, and the
  first invocation stays pending whatever happens afterwards (\<open>ext\<close>). The fourth user
  gets no result. On the same input and without the second invocation the report has its
  four results.
\<close>

theorem overtaken_invocation_never_returns:
  "outcome (processQueueAttendance
      [\<lparr>user.name = ''A'', stuId = ''1''\<rparr>, \<lparr>user.name = ''B'', stuId = ''2''\<rparr>,
       \<lparr>user.name = ''C'', stuId = ''3''\<rparr>, \<lparr>user.name = ''D'', stuId = ''4''\<rparr>] ''E''
      [Some ''c'', Some ''d'', Some ''e'', Some ''f''] (\<lambda>_. FetchResolved (JsonData (Some ''SUCCESS'')))
      (queue_tasks [\<lparr>user.name = ''Z'', stuId = ''9''\<rparr>] ''E'' [Some ''z''] (\<lambda>_. FetchResolved (JsonData (Some ''SUCCESS'')))) [] (Invoke 1 # ext)) = Pending \<and>
   outcome (processQueueAttendance
      [\<lparr>user.name = ''A'', stuId = ''1''\<rparr>, \<lparr>user.name = ''B'', stuId = ''2''\<rparr>,
       \<lparr>user.name = ''C'', stuId = ''3''\<rparr>, \<lparr>user.name = ''D'', stuId = ''4''\<rparr>] ''E''
      [Some ''c'', Some ''d'', Some ''e'', Some ''f''] (\<lambda>_. FetchResolved (JsonData (Some ''SUCCESS'')))
      (queue_tasks [\<lparr>user.name = ''Z'', stuId = ''9''\<rparr>] ''E'' [Some ''z''] (\<lambda>_. FetchResolved (JsonData (Some ''SUCCESS'')))) []
      [Env (Settle 0), Env (Settle 0), Env (Settle 0), Env Timer, Env (Settle 0)])
   = Fulfilled (Report
       \<lparr>success = True, total = 4, successful = 4, failed = 0,
        results =
          [\<lparr>name = ''A'', status = check_mark @ '' Marked Present'', code = Some ''SUCCESS''\<rparr>,
           \<lparr>name = ''B'', status = check_mark @ '' Marked Present'', code = Some ''SUCCESS''\<rparr>,
           \<lparr>name = ''C'', status = check_mark @ '' Marked Present'', code = Some ''SUCCESS''\<rparr>,
           \<lparr>name = ''D'', status = check_mark @ '' Marked Present'', code = Some ''SUCCESS''\<rparr>]\<rparr>)"
proof -
  let ?users = "[\<lparr>user.name = ''A'', stuId = ''1''\<rparr>, \<lparr>user.name = ''B'', stuId = ''2''\<rparr>,
       \<lparr>user.name = ''C'', stuId = ''3''\<rparr>, \<lparr>user.name = ''D'', stuId = ''4''\<rparr>]"
  let ?tasks = "hook_tasks ?users ''E''
      [Some ''c'', Some ''d'', Some ''e'', Some ''f''] (\<lambda>_. FetchResolved (JsonData (Some ''SUCCESS'')))
      (queue_tasks [\<lparr>user.name = ''Z'', stuId = ''9''\<rparr>] ''E'' [Some ''z''] (\<lambda>_. FetchResolved (JsonData (Some ''SUCCESS''))))"
  have i: "3 < length ?users" by simp
  have a: "absent 3 (shared (fold (hook_step ?tasks (length ?users)) [Invoke 1]
             (queue_start ?tasks (length ?users) [])))"
    by code_simp
  have p: "promises (shared (fold (hook_step ?tasks (length ?users)) [Invoke 1]
             (queue_start ?tasks (length ?users) []))) 3 = Pending"
    by code_simp
  from dropped_task_pending [OF i a p, of ext]
  have "\<not> allSettled (length ?users)
           (promises (shared (queue_run ?tasks (length ?users) [] (Invoke 1 # ext))))"
    by simp
  then have 1: "outcome (processQueueAttendance ?users ''E''
      [Some ''c'', Some ''d'', Some ''e'', Some ''f''] (\<lambda>_. FetchResolved (JsonData (Some ''SUCCESS'')))
      (queue_tasks [\<lparr>user.name = ''Z'', stuId = ''9''\<rparr>] ''E'' [Some ''z''] (\<lambda>_. FetchResolved (JsonData (Some ''SUCCESS'')))) [] (Invoke 1 # ext)) = Pending"
    by (simp add: processQueueAttendance_def Let_def)
  have 2: "outcome (processQueueAttendance ?users ''E''
      [Some ''c'', Some ''d'', Some ''e'', Some ''f''] (\<lambda>_. FetchResolved (JsonData (Some ''SUCCESS'')))
      (queue_tasks [\<lparr>user.name = ''Z'', stuId = ''9''\<rparr>] ''E'' [Some ''z''] (\<lambda>_. FetchResolved (JsonData (Some ''SUCCESS'')))) []
      [Env (Settle 0), Env (Settle 0), Env (Settle 0), Env Timer, Env (Settle 0)])
   = Fulfilled (Report
       \<lparr>success = True, total = 4, successful = 4, failed = 0,
        results =
          [\<lparr>name = ''A'', status = check_mark @ '' Marked Present'', code = Some ''SUCCESS''\<rparr>,
           \<lparr>name = ''B'', status = check_mark @ '' Marked Present'', code = Some ''SUCCESS''\<rparr>,
           \<lparr>name = ''C'', status = check_mark @ '' Marked Present'', code = Some ''SUCCESS''\<rparr>,
           \<lparr>name = ''D'', status = check_mark @ '' Marked Present'', code = Some ''SUCCESS''\<rparr>]\<rparr>)"
    by code_simp
  show ?thesis using 1 2 by blast
qed

text \<open>
  Claim C2. The results of a report of the queue path are, position by position, what the
  task of the user at that position returned, so they carry the users' names in input
  order. Neither the order in which the remote calls complete nor what other invocations
  do to the queue occurs in them: two invocations on the same input that return, whatever
  the events around them, report the same results.
\<close>

theorem results_in_input_order:
  "(\<forall>rep. outcome (processQueueAttendance users attendanceId userCookies remote others
                      before after) = Fulfilled (Report rep) \<longrightarrow>
       results rep =
         map (\<lambda>index. task_result (users ! index) (at_index userCookies index) (remote index))
           [0..<length users] \<and>
       map result.name (results rep) = map user.name users) \<and>
   (\<forall>others' before' after' rep rep'.
       outcome (processQueueAttendance users attendanceId userCookies remote others
                  before after) = Fulfilled (Report rep) \<and>
       outcome (processQueueAttendance users attendanceId userCookies remote others'
                  before' after') = Fulfilled (Report rep') \<longrightarrow>
       results rep = results rep')"
proof -
  let ?rs = "map (\<lambda>index. task_result (users ! index) (at_index userCookies index) (remote index))
               [0..<length users]"
  have key: "results rep = ?rs"
    if "outcome (processQueueAttendance users attendanceId userCookies remote ot be af)
            = Fulfilled (Report rep)" for ot be af rep
  proof -
    from queue_outcome_cases [of users attendanceId userCookies remote ot be af] that
    have "rep = queue_report ?rs" by simp
    then show ?thesis by (simp add: queue_report_fields)
  qed
  have nm: "map result.name ?rs = map user.name users" by (rule names_in_order)
  show ?thesis using key nm by metis
qed

theorem results_in_input_order_witness:
  "outcome (processQueueAttendance
      [\<lparr>user.name = ''A'', stuId = ''1''\<rparr>, \<lparr>user.name = ''B'', stuId = ''2''\<rparr>] ''E''
      [Some ''c'', Some ''d''] (\<lambda>i. if i = 0 then FetchRejected else FetchResolved (JsonData (Some ''SUCCESS'')))
      (queue_tasks [\<lparr>user.name = ''Z'', stuId = ''9''\<rparr>] ''E'' [Some ''z''] (\<lambda>_. FetchRejected)) [] [Env (Settle 1), Env (Settle 0)])
   = Fulfilled (Report
       \<lparr>success = True, total = 2, successful = 1, failed = 1,
        results =
          [\<lparr>name = ''A'', status = cross_mark @ '' Network error'', code = Some ''TIMEOUT''\<rparr>,
           \<lparr>name = ''B'', status = check_mark @ '' Marked Present'', code = Some ''SUCCESS''\<rparr>]\<rparr>) \<and>
   outcome (processQueueAttendance
      [\<lparr>user.name = ''A'', stuId = ''1''\<rparr>, \<lparr>user.name = ''B'', stuId = ''2''\<rparr>] ''E''
      [Some ''c'', Some ''d''] (\<lambda>i. if i = 0 then FetchRejected else FetchResolved (JsonData (Some ''SUCCESS'')))
      (queue_tasks [\<lparr>user.name = ''Z'', stuId = ''9''\<rparr>] ''E'' [Some ''z''] (\<lambda>_. FetchRejected)) [Invoke 1] [Env (Settle 1), Env (Settle 1)])
   = Fulfilled (Report
       \<lparr>success = True, total = 2, successful = 1, failed = 1,
        results =
          [\<lparr>name = ''A'', status = cross_mark @ '' Network error'', code = Some ''TIMEOUT''\<rparr>,
           \<lparr>name = ''B'', status = check_mark @ '' Marked Present'', code = Some ''SUCCESS''\<rparr>]\<rparr>) \<and>
   map result.name
     [\<lparr>name = ''A'', status = cross_mark @ '' Network error'', code = Some ''TIMEOUT''\<rparr>,
      \<lparr>name = ''B'', status = check_mark @ '' Marked Present'', code = Some ''SUCCESS''\<rparr>]
   = map user.name [\<lparr>user.name = ''A'', stuId = ''1''\<rparr>, \<lparr>user.name = ''B'', stuId = ''2''\<rparr>]"
proof -
  have run1: "outcome (processQueueAttendance
      [\<lparr>user.name = ''A'', stuId = ''1''\<rparr>, \<lparr>user.name = ''B'', stuId = ''2''\<rparr>] ''E''
      [Some ''c'', Some ''d''] (\<lambda>i. if i = 0 then FetchRejected else FetchResolved (JsonData (Some ''SUCCESS'')))
      (queue_tasks [\<lparr>user.name = ''Z'', stuId = ''9''\<rparr>] ''E'' [Some ''z''] (\<lambda>_. FetchRejected)) [] [Env (Settle 1), Env (Settle 0)])
   = Fulfilled (Report
       \<lparr>success = True, total = 2, successful = 1, failed = 1,
        results =
          [\<lparr>name = ''A'', status = cross_mark @ '' Network error'', code = Some ''TIMEOUT''\<rparr>,
           \<lparr>name = ''B'', status = check_mark @ '' Marked Present'', code = Some ''SUCCESS''\<rparr>]\<rparr>)"
    by code_simp
  have run2: "outcome (processQueueAttendance
      [\<lparr>user.name = ''A'', stuId = ''1''\<rparr>, \<lparr>user.name = ''B'', stuId = ''2''\<rparr>] ''E''
      [Some ''c'', Some ''d''] (\<lambda>i. if i = 0 then FetchRejected else FetchResolved (JsonData (Some ''SUCCESS'')))
      (queue_tasks [\<lparr>user.name = ''Z'', stuId = ''9''\<rparr>] ''E'' [Some ''z''] (\<lambda>_. FetchRejected)) [Invoke 1] [Env (Settle 1), Env (Settle 1)])
   = Fulfilled (Report
       \<lparr>success = True, total = 2, successful = 1, failed = 1,
        results =
          [\<lparr>name = ''A'', status = cross_mark @ '' Network error'', code = Some ''TIMEOUT''\<rparr>,
           \<lparr>name = ''B'', status = check_mark @ '' Marked Present'', code = Some ''SUCCESS''\<rparr>]\<rparr>)"
    by code_simp
  from results_in_input_order [THEN conjunct1, rule_format, OF run1] run1 run2
  show ?thesis by simp
qed

text \<open>
  Claim C3, which the code breaks. \<^verbatim>\<open>process()\<close> admits a task only while
  \<open>running < concurrency\<close>, and the hook asks for 3 concurrent tasks, but \<^verbatim>\<open>clear()\<close> sets
  \<open>running\<close> to 0 whatever is in flight. An invocation with three users that begins while
  an earlier one with four users has three tasks in flight admits its own three: six
  tasks are in flight under a ceiling of 3, with \<open>running = 3\<close>. When the six have
  settled \<open>running\<close> is \<open>-3\<close>.
\<close>

theorem ceiling_exceeded_by_overlap:
  "awaiting (shared (queue_run
      (hook_tasks [\<lparr>user.name = ''X'', stuId = ''7''\<rparr>, \<lparr>user.name = ''Y'', stuId = ''8''\<rparr>, \<lparr>user.name = ''Z'', stuId = ''9''\<rparr>] ''E''
         [Some ''x'', Some ''y'', Some ''z''] (\<lambda>_. FetchResolved (JsonData (Some ''SUCCESS'')))
         (queue_tasks
        [\<lparr>user.name = ''A'', stuId = ''1''\<rparr>, \<lparr>user.name = ''B'', stuId = ''2''\<rparr>,
         \<lparr>user.name = ''C'', stuId = ''3''\<rparr>, \<lparr>user.name = ''D'', stuId = ''4''\<rparr>]
        ''E'' [Some ''c'', Some ''d'', Some ''e'', Some ''f'']
        (\<lambda>_. FetchResolved (JsonData (Some ''SUCCESS'')))))
      3 [Invoke 4] [])) = [3, 4, 5, 0, 1, 2] \<and>
   concurrency (aq (shared (queue_run
      (hook_tasks [\<lparr>user.name = ''X'', stuId = ''7''\<rparr>, \<lparr>user.name = ''Y'', stuId = ''8''\<rparr>, \<lparr>user.name = ''Z'', stuId = ''9''\<rparr>] ''E''
         [Some ''x'', Some ''y'', Some ''z''] (\<lambda>_. FetchResolved (JsonData (Some ''SUCCESS'')))
         (queue_tasks
        [\<lparr>user.name = ''A'', stuId = ''1''\<rparr>, \<lparr>user.name = ''B'', stuId = ''2''\<rparr>,
         \<lparr>user.name = ''C'', stuId = ''3''\<rparr>, \<lparr>user.name = ''D'', stuId = ''4''\<rparr>]
        ''E'' [Some ''c'', Some ''d'', Some ''e'', Some ''f'']
        (\<lambda>_. FetchResolved (JsonData (Some ''SUCCESS'')))))
      3 [Invoke 4] []))) = 3 \<and>
   running (aq (shared (queue_run
      (hook_tasks [\<lparr>user.name = ''X'', stuId = ''7''\<rparr>, \<lparr>user.name = ''Y'', stuId = ''8''\<rparr>, \<lparr>user.name = ''Z'', stuId = ''9''\<rparr>] ''E''
         [Some ''x'', Some ''y'', Some ''z''] (\<lambda>_. FetchResolved (JsonData (Some ''SUCCESS'')))
         (queue_tasks
        [\<lparr>user.name = ''A'', stuId = ''1''\<rparr>, \<lparr>user.name = ''B'', stuId = ''2''\<rparr>,
         \<lparr>user.name = ''C'', stuId = ''3''\<rparr>, \<lparr>user.name = ''D'', stuId = ''4''\<rparr>]
        ''E'' [Some ''c'', Some ''d'', Some ''e'', Some ''f'']
        (\<lambda>_. FetchResolved (JsonData (Some ''SUCCESS'')))))
      3 [Invoke 4] []))) = 3 \<and>
   running (aq (shared (queue_run
      (hook_tasks [\<lparr>user.name = ''X'', stuId = ''7''\<rparr>, \<lparr>user.name = ''Y'', stuId = ''8''\<rparr>, \<lparr>user.name = ''Z'', stuId = ''9''\<rparr>] ''E''
         [Some ''x'', Some ''y'', Some ''z''] (\<lambda>_. FetchResolved (JsonData (Some ''SUCCESS'')))
         (queue_tasks
        [\<lparr>user.name = ''A'', stuId = ''1''\<rparr>, \<lparr>user.name = ''B'', stuId = ''2''\<rparr>,
         \<lparr>user.name = ''C'', stuId = ''3''\<rparr>, \<lparr>user.name = ''D'', stuId = ''4''\<rparr>]
        ''E'' [Some ''c'', Some ''d'', Some ''e'', Some ''f'']
        (\<lambda>_. FetchResolved (JsonData (Some ''SUCCESS'')))))
      3 [Invoke 4]
      [Env (Settle 0), Env (Settle 0), Env (Settle 0), Env (Settle 0), Env (Settle 0),
       Env (Settle 0)]))) = - 3"
  by code_simp




text \<open>
  Claim C5, which the code breaks. Six users, the batch call fails, and the fallback
  enters the queue path with the same users, attendance id and cookies: three tasks are
  admitted and three queued. When another invocation begins before the queued ones are
  admitted, its \<^verbatim>\<open>queue.clear()\<close> drops them, and the fallback never returns a report,
  whatever happens afterwards (\<open>ext\<close>). Without the second invocation it returns the six
  results.
\<close>

theorem overtaken_fallback_never_returns:
  "outcome (processBatchAttendance
      (map (\<lambda>n. \<lparr>user.name = n, stuId = n\<rparr>) [''a'', ''b'', ''c'', ''d'', ''e'', ''f'']) ''E''
      (replicate 6 (Some ''k'')) BatchFetchRejected (\<lambda>_. FetchResolved (JsonData (Some ''SUCCESS'')))
      (queue_tasks [\<lparr>user.name = ''Z'', stuId = ''9''\<rparr>] ''E'' [Some ''z''] (\<lambda>_. FetchResolved (JsonData (Some ''SUCCESS'')))) [] (Invoke 1 # ext)) = Pending \<and>
   (case outcome (processBatchAttendance
      (map (\<lambda>n. \<lparr>user.name = n, stuId = n\<rparr>) [''a'', ''b'', ''c'', ''d'', ''e'', ''f'']) ''E''
      (replicate 6 (Some ''k'')) BatchFetchRejected (\<lambda>_. FetchResolved (JsonData (Some ''SUCCESS'')))
      (queue_tasks [\<lparr>user.name = ''Z'', stuId = ''9''\<rparr>] ''E'' [Some ''z''] (\<lambda>_. FetchResolved (JsonData (Some ''SUCCESS'')))) []
      [Env (Settle 0), Env (Settle 0), Env (Settle 0), Env Timer, Env Timer, Env Timer,
       Env (Settle 0), Env (Settle 0), Env (Settle 0)]) of
      Fulfilled (Report rep) \<Rightarrow> length (results rep) = 6 \<and> successful rep = 6
    | _ \<Rightarrow> False)"
proof -
  let ?users = "(map (\<lambda>n. \<lparr>user.name = n, stuId = n\<rparr>) [''a'', ''b'', ''c'', ''d'', ''e'', ''f''])"
  let ?tasks = "hook_tasks ?users ''E''
      (replicate 6 (Some ''k'')) (\<lambda>_. FetchResolved (JsonData (Some ''SUCCESS'')))
      (queue_tasks [\<lparr>user.name = ''Z'', stuId = ''9''\<rparr>] ''E'' [Some ''z''] (\<lambda>_. FetchResolved (JsonData (Some ''SUCCESS''))))"
  have i: "3 < length ?users" by simp
  have a: "absent 3 (shared (fold (hook_step ?tasks (length ?users)) [Invoke 1]
             (queue_start ?tasks (length ?users) [])))"
    by code_simp
  have p: "promises (shared (fold (hook_step ?tasks (length ?users)) [Invoke 1]
             (queue_start ?tasks (length ?users) []))) 3 = Pending"
    by code_simp
  from dropped_task_pending [OF i a p, of ext]
  have "\<not> allSettled (length ?users)
           (promises (shared (queue_run ?tasks (length ?users) [] (Invoke 1 # ext))))"
    by simp
  then have "outcome (processQueueAttendance ?users ''E''
      (replicate 6 (Some ''k'')) (\<lambda>_. FetchResolved (JsonData (Some ''SUCCESS'')))
      (queue_tasks [\<lparr>user.name = ''Z'', stuId = ''9''\<rparr>] ''E'' [Some ''z''] (\<lambda>_. FetchResolved (JsonData (Some ''SUCCESS'')))) [] (Invoke 1 # ext)) = Pending"
    by (simp add: processQueueAttendance_def Let_def)
  then have 1: "outcome (processBatchAttendance ?users ''E''
      (replicate 6 (Some ''k'')) BatchFetchRejected (\<lambda>_. FetchResolved (JsonData (Some ''SUCCESS'')))
      (queue_tasks [\<lparr>user.name = ''Z'', stuId = ''9''\<rparr>] ''E'' [Some ''z''] (\<lambda>_. FetchResolved (JsonData (Some ''SUCCESS'')))) [] (Invoke 1 # ext)) = Pending"
    by (simp add: batch_fallback)
  have 2: "(case outcome (processBatchAttendance ?users ''E''
      (replicate 6 (Some ''k'')) BatchFetchRejected (\<lambda>_. FetchResolved (JsonData (Some ''SUCCESS'')))
      (queue_tasks [\<lparr>user.name = ''Z'', stuId = ''9''\<rparr>] ''E'' [Some ''z''] (\<lambda>_. FetchResolved (JsonData (Some ''SUCCESS'')))) []
      [Env (Settle 0), Env (Settle 0), Env (Settle 0), Env Timer, Env Timer, Env Timer,
       Env (Settle 0), Env (Settle 0), Env (Settle 0)]) of
      Fulfilled (Report rep) \<Rightarrow> length (results rep) = 6 \<and> successful rep = 6
    | _ \<Rightarrow> False)"
    by code_simp
  show ?thesis using 1 2 by blast
qed

text \<open>
  Claim C6, as the code has it. On an empty list of users, on cookies that are missing
  altogether or on a list of cookies whose length differs from the number of users,
  \<^verbatim>\<open>processAttendance\<close> shows an alert and returns undefined: its promise is fulfilled, not
  rejected, so nothing is raised to the caller. No request is sent and no progress is
  reported.
\<close>

theorem invalid_input_alerts:
  assumes "users = [] \<or> userCookies = None \<or> length (the userCookies) \<noteq> length users"
  shows
    "outcome (processAttendance processingMethod users attendanceId userCookies batch remote
                others before after)
       = Fulfilled Undefined \<and>
     alerts (processAttendance processingMethod users attendanceId userCookies batch remote
               others before after)
       = [if users = [] then ''No users loaded yet. Please add users first.''
          else ''Cookies not loaded yet. Please wait a moment and try again.''] \<and>
     requests (processAttendance processingMethod users attendanceId userCookies batch remote
                 others before after)
       = [] \<and>
     snapshots (processAttendance processingMethod users attendanceId userCookies batch remote
                  others before after)
       = []"
  using assms by (auto simp: processAttendance_def)

theorem invalid_input_alerts_witness:
  "([] :: user list) = [] \<and>
   processAttendance ''batch'' [] ''E'' (Some []) BatchFetchRejected (\<lambda>_. FetchRejected)
       (queue_tasks [\<lparr>user.name = ''Z'', stuId = ''9''\<rparr>] ''E'' [Some ''z''] (\<lambda>_. FetchRejected)) [] []
     = \<lparr>outcome = Fulfilled Undefined,
        alerts = [''No users loaded yet. Please add users first.''],
        requests = [], snapshots = []\<rparr>"
proof -
  have h: "([] :: user list) = [] \<or> Some [] = None \<or> length (the (Some [])) \<noteq> length ([] :: user list)"
    by simp
  from invalid_input_alerts [OF h, of "''batch''" "''E''" BatchFetchRejected "\<lambda>_. FetchRejected"
      "(queue_tasks [\<lparr>user.name = ''Z'', stuId = ''9''\<rparr>] ''E'' [Some ''z''] (\<lambda>_. FetchRejected))" "[]" "[]"]
  show ?thesis by simp
qed

theorem mismatched_input_is_not_raised:
  "processAttendance ''batch''
     [\<lparr>user.name = ''A'', stuId = ''1''\<rparr>, \<lparr>user.name = ''B'', stuId = ''2''\<rparr>,
      \<lparr>user.name = ''C'', stuId = ''3''\<rparr>] ''E'' (Some [Some ''c'', Some ''d''])
     BatchFetchRejected (\<lambda>_. FetchRejected) (queue_tasks [\<lparr>user.name = ''Z'', stuId = ''9''\<rparr>] ''E'' [Some ''z''] (\<lambda>_. FetchRejected)) [] [Env (Settle 0), Env Timer]
   = \<lparr>outcome = Fulfilled Undefined,
      alerts = [''Cookies not loaded yet. Please wait a moment and try again.''],
      requests = [], snapshots = []\<rparr>"
  by code_simp

text \<open>
  Claim C7, as the code has it. On valid input \<^verbatim>\<open>processAttendance\<close> takes the batch path
  exactly when the state \<open>processingMethod\<close> (a preference, \<open>batch\<close> unless the caller
  has set another value) is \<open>batch\<close> and there are at least 5 users, and the queue path
  otherwise. A batch request leaves the browser in exactly that case. Whether the batch
  endpoint is available plays no part in the choice: with the preference \<open>batch\<close> the
  batch request is sent to an endpoint that does not answer, and with another preference
  the queue path is taken although the endpoint would answer.
\<close>

theorem method_selection:
  assumes "users \<noteq> []" and "length userCookies = length users"
  shows
    "processAttendance processingMethod users attendanceId (Some userCookies) batch remote
         others before after
       = (if processingMethod = ''batch'' \<and> 5 \<le> length users
          then processBatchAttendance users attendanceId userCookies batch remote others
                 before after
          else processQueueAttendance users attendanceId userCookies remote others
                 before after) \<and>
     ((\<exists>us. MarkAttendanceBatch attendanceId us
          \<in> set (requests (processAttendance processingMethod users attendanceId
                (Some userCookies) batch remote others before after)))
      \<longleftrightarrow> processingMethod = ''batch'' \<and> 5 \<le> length users)"
proof -
  have sel: "processAttendance processingMethod users attendanceId (Some userCookies) batch remote
         others before after
       = (if processingMethod = ''batch'' \<and> 5 \<le> length users
          then processBatchAttendance users attendanceId userCookies batch remote others
                 before after
          else processQueueAttendance users attendanceId userCookies remote others
                 before after)"
    using assms by (simp add: processAttendance_def)
  have b: "MarkAttendanceBatch attendanceId (usersWithCookies users userCookies)
      \<in> set (requests (processBatchAttendance users attendanceId userCookies batch remote
                others before after))"
    by (cases "batch_report batch") (simp_all add: batch_fallback batch_answered)
  have q: "\<And>us. MarkAttendanceBatch attendanceId us
      \<notin> set (requests (processQueueAttendance users attendanceId userCookies remote others
                before after))"
    by (rule queue_sends_no_batch)
  show ?thesis
  proof (cases "processingMethod = ''batch'' \<and> 5 \<le> length users")
    case True
    then show ?thesis using sel b by auto
  next
    case False
    then show ?thesis using sel q by auto
  qed
qed

theorem method_selection_witness:
  "(map (\<lambda>n. \<lparr>user.name = n, stuId = n\<rparr>) [''a'', ''b'', ''c'', ''d'', ''e'']) \<noteq> [] \<and>
   length (replicate 5 (Some ''k'')) = length (map (\<lambda>n. \<lparr>user.name = n, stuId = n\<rparr>) [''a'', ''b'', ''c'', ''d'', ''e'']) \<and>
   requests (processAttendance ''batch''
     (map (\<lambda>n. \<lparr>user.name = n, stuId = n\<rparr>) [''a'', ''b'', ''c'', ''d'', ''e'']) ''E''
     (Some (replicate 5 (Some ''k''))) (BatchJson 5 4 1 (Some [])) (\<lambda>_. FetchResolved (JsonData (Some ''SUCCESS'')))
     (queue_tasks [\<lparr>user.name = ''Z'', stuId = ''9''\<rparr>] ''E'' [Some ''z''] (\<lambda>_. FetchRejected)) [] [])
   = [MarkAttendanceBatch ''E''
        (usersWithCookies (map (\<lambda>n. \<lparr>user.name = n, stuId = n\<rparr>) [''a'', ''b'', ''c'', ''d'', ''e''])
           (replicate 5 (Some ''k'')))]"
proof -
  have h1: "(map (\<lambda>n. \<lparr>user.name = n, stuId = n\<rparr>) [''a'', ''b'', ''c'', ''d'', ''e'']) \<noteq> []"
    by simp
  have h2: "length (replicate 5 (Some ''k'')) = length (map (\<lambda>n. \<lparr>user.name = n, stuId = n\<rparr>) [''a'', ''b'', ''c'', ''d'', ''e''])"
    by simp
  from method_selection [OF h1 h2, of "''batch''" "''E''" "BatchJson 5 4 1 (Some [])" "(\<lambda>_. FetchResolved (JsonData (Some ''SUCCESS'')))"
      "(queue_tasks [\<lparr>user.name = ''Z'', stuId = ''9''\<rparr>] ''E'' [Some ''z''] (\<lambda>_. FetchRejected))" "[]" "[]"]
  have "processAttendance ''batch''
     (map (\<lambda>n. \<lparr>user.name = n, stuId = n\<rparr>) [''a'', ''b'', ''c'', ''d'', ''e'']) ''E''
     (Some (replicate 5 (Some ''k''))) (BatchJson 5 4 1 (Some [])) (\<lambda>_. FetchResolved (JsonData (Some ''SUCCESS'')))
     (queue_tasks [\<lparr>user.name = ''Z'', stuId = ''9''\<rparr>] ''E'' [Some ''z''] (\<lambda>_. FetchRejected)) [] []
     = processBatchAttendance
     (map (\<lambda>n. \<lparr>user.name = n, stuId = n\<rparr>) [''a'', ''b'', ''c'', ''d'', ''e'']) ''E''
     (replicate 5 (Some ''k'')) (BatchJson 5 4 1 (Some [])) (\<lambda>_. FetchResolved (JsonData (Some ''SUCCESS'')))
     (queue_tasks [\<lparr>user.name = ''Z'', stuId = ''9''\<rparr>] ''E'' [Some ''z''] (\<lambda>_. FetchRejected)) [] []"
    by simp
  then show ?thesis using h1 h2 by (simp add: batch_answered)
qed

theorem selection_ignores_availability:
  "requests (processAttendance ''batch''
     (map (\<lambda>n. \<lparr>user.name = n, stuId = n\<rparr>) [''a'', ''b'', ''c'', ''d'', ''e'']) ''E''
     (Some (replicate 5 (Some ''k''))) BatchFetchRejected (\<lambda>_. FetchResolved (JsonData (Some ''SUCCESS'')))
     (queue_tasks [\<lparr>user.name = ''Z'', stuId = ''9''\<rparr>] ''E'' [Some ''z''] (\<lambda>_. FetchRejected)) [] [])
   = [MarkAttendanceBatch ''E''
        [(''a'', ''a'', Some ''k''), (''b'', ''b'', Some ''k''), (''c'', ''c'', Some ''k''),
         (''d'', ''d'', Some ''k''), (''e'', ''e'', Some ''k'')],
      MarkAttendance ''a'' ''E'' ''k'', MarkAttendance ''b'' ''E'' ''k'',
      MarkAttendance ''c'' ''E'' ''k''] \<and>
   requests (processAttendance ''queue''
     (map (\<lambda>n. \<lparr>user.name = n, stuId = n\<rparr>) [''a'', ''b'', ''c'', ''d'', ''e'']) ''E''
     (Some (replicate 5 (Some ''k''))) (BatchJson 5 5 0 (Some (map (\<lambda>n. BatchRow n ''success'' None) [''a'', ''b'', ''c'', ''d'', ''e'']))) (\<lambda>_. FetchResolved (JsonData (Some ''SUCCESS'')))
     (queue_tasks [\<lparr>user.name = ''Z'', stuId = ''9''\<rparr>] ''E'' [Some ''z''] (\<lambda>_. FetchRejected)) [] [])
   = [MarkAttendance ''a'' ''E'' ''k'', MarkAttendance ''b'' ''E'' ''k'',
      MarkAttendance ''c'' ''E'' ''k'']"
  by code_simp

text \<open>
  Claim C8, which the code breaks. An invocation with one user begins while an earlier one
  with four users has three tasks in flight. \<^verbatim>\<open>clear()\<close> has set \<open>running\<close> to 0, the
  new task makes it 1, and every task that settles lowers it: the four progress objects
  that the callback of the invocation receives have \<open>completed = 1\<close> and \<open>total\<close> equal
  to 1, 0, -1 and -2, so \<open>completed\<close> exceeds \<open>total\<close> in three of them.
\<close>

theorem snapshot_total_below_completed:
  "map (\<lambda>p. (completed p, ProgressData.total p))
     (snapshots (processQueueAttendance
        [\<lparr>user.name = ''Z'', stuId = ''9''\<rparr>] ''E'' [Some ''z''] (\<lambda>_. FetchResolved (JsonData (Some ''SUCCESS'')))
        (queue_tasks
        [\<lparr>user.name = ''A'', stuId = ''1''\<rparr>, \<lparr>user.name = ''B'', stuId = ''2''\<rparr>,
         \<lparr>user.name = ''C'', stuId = ''3''\<rparr>, \<lparr>user.name = ''D'', stuId = ''4''\<rparr>]
        ''E'' [Some ''c'', Some ''d'', Some ''e'', Some ''f'']
        (\<lambda>_. FetchResolved (JsonData (Some ''SUCCESS'')))) [Invoke 4]
        [Env (Settle 0), Env (Settle 0), Env (Settle 0), Env (Settle 0)]))
   = [(1, 1), (1, 0), (1, - 1), (1, - 2)] \<and>
   outcome (processQueueAttendance
        [\<lparr>user.name = ''Z'', stuId = ''9''\<rparr>] ''E'' [Some ''z''] (\<lambda>_. FetchResolved (JsonData (Some ''SUCCESS'')))
        (queue_tasks
        [\<lparr>user.name = ''A'', stuId = ''1''\<rparr>, \<lparr>user.name = ''B'', stuId = ''2''\<rparr>,
         \<lparr>user.name = ''C'', stuId = ''3''\<rparr>, \<lparr>user.name = ''D'', stuId = ''4''\<rparr>]
        ''E'' [Some ''c'', Some ''d'', Some ''e'', Some ''f'']
        (\<lambda>_. FetchResolved (JsonData (Some ''SUCCESS'')))) [Invoke 4]
        [Env (Settle 0), Env (Settle 0), Env (Settle 0), Env (Settle 0)])
   = Fulfilled (Report
       \<lparr>success = True, total = 1, successful = 1, failed = 0,
        results = [\<lparr>name = ''Z'', status = check_mark @ '' Marked Present'',
                    code = Some ''SUCCESS''\<rparr>]\<rparr>)"
  by code_simp



text \<open>
  Claim C10. In a report of the queue path, \<open>successful\<close> is the number of results whose
  code is \<open>SUCCESS\<close> and \<open>failed\<close> is \<open>total - successful\<close>, which is the number of
  results with any other code or none. In terms of the input, exactly the users with a cookie
  whose response carries the code \<open>SUCCESS\<close> are counted as successful; a missing cookie,
  a rejected fetch, an unreadable body and every other or absent code count as failed.
\<close>

theorem success_count:
  "\<forall>rep. outcome (processQueueAttendance users attendanceId userCookies remote others
                     before after) = Fulfilled (Report rep) \<longrightarrow>
     successful rep = length (filter (\<lambda>r. code r = Some ''SUCCESS'') (results rep)) \<and>
     failed rep = total rep - successful rep \<and>
     failed rep = length (filter (\<lambda>r. code r \<noteq> Some ''SUCCESS'') (results rep)) \<and>
     successful rep =
       length (filter
         (\<lambda>index. \<not> falsy (at_index userCookies index) \<and>
                   remote index = FetchResolved (JsonData (Some ''SUCCESS'')))
         [0..<length users])"
proof (intro allI impI)
  fix rep
  let ?rs = "map (\<lambda>index. task_result (users ! index) (at_index userCookies index) (remote index))
               [0..<length users]"
  assume "outcome (processQueueAttendance users attendanceId userCookies remote others
                     before after) = Fulfilled (Report rep)"
  then have rep: "rep = queue_report ?rs"
    using queue_outcome_cases [of users attendanceId userCookies remote others before after]
    by simp
  have 1: "successful rep = length (filter (\<lambda>r. code r = Some ''SUCCESS'') (results rep))"
    and 2: "failed rep = total rep - successful rep"
    unfolding rep by (simp_all only: queue_report_fields)
  have 3: "failed rep = length (filter (\<lambda>r. code r \<noteq> Some ''SUCCESS'') (results rep))"
    unfolding rep by (simp only: queue_report_fields length_filter_not)
  have "length (filter (\<lambda>r. code r = Some ''SUCCESS'') ?rs) =
        length (filter
         (\<lambda>index. \<not> falsy (at_index userCookies index) \<and>
                   remote index = FetchResolved (JsonData (Some ''SUCCESS'')))
         [0..<length users])"
    by (simp add: filter_map comp_def code_SUCCESS_iff)
  then have 4: "successful rep =
       length (filter
         (\<lambda>index. \<not> falsy (at_index userCookies index) \<and>
                   remote index = FetchResolved (JsonData (Some ''SUCCESS'')))
         [0..<length users])"
    unfolding rep by (simp only: queue_report_fields)
  show "successful rep = length (filter (\<lambda>r. code r = Some ''SUCCESS'') (results rep)) \<and>
     failed rep = total rep - successful rep \<and>
     failed rep = length (filter (\<lambda>r. code r \<noteq> Some ''SUCCESS'') (results rep)) \<and>
     successful rep =
       length (filter
         (\<lambda>index. \<not> falsy (at_index userCookies index) \<and>
                   remote index = FetchResolved (JsonData (Some ''SUCCESS'')))
         [0..<length users])"
    using 1 2 3 4 by blast
qed

theorem success_count_witness:
  "outcome (processQueueAttendance
      [\<lparr>user.name = ''A'', stuId = ''1''\<rparr>, \<lparr>user.name = ''B'', stuId = ''2''\<rparr>,
       \<lparr>user.name = ''C'', stuId = ''3''\<rparr>, \<lparr>user.name = ''D'', stuId = ''4''\<rparr>] ''E''
      [Some ''c'', None, Some ''e'', Some ''f'']
      (\<lambda>i. if i = 0 then FetchResolved (JsonData (Some ''SUCCESS''))
           else if i = 2 then FetchResolved JsonRejected else FetchRejected)
      (queue_tasks [\<lparr>user.name = ''Z'', stuId = ''9''\<rparr>] ''E'' [Some ''z''] (\<lambda>_. FetchRejected)) []
      [Env (Settle 2), Env (Settle 0), Env Timer, Env (Settle 1), Env (Settle 0)])
   = Fulfilled (Report
       \<lparr>success = True, total = 4, successful = 1, failed = 3,
        results =
          [\<lparr>name = ''A'', status = check_mark @ '' Marked Present'', code = Some ''SUCCESS''\<rparr>,
           \<lparr>name = ''B'', status = cross_mark @ '' No session cookie'',
            code = Some ''COOKIE_ERROR''\<rparr>,
           \<lparr>name = ''C'', status = warning_sign @ '' Error'', code = None\<rparr>,
           \<lparr>name = ''D'', status = cross_mark @ '' Network error'', code = Some ''TIMEOUT''\<rparr>]\<rparr>) \<and>
   (3::nat) = 4 - 1"
proof -
  have run: "outcome (processQueueAttendance
      [\<lparr>user.name = ''A'', stuId = ''1''\<rparr>, \<lparr>user.name = ''B'', stuId = ''2''\<rparr>,
       \<lparr>user.name = ''C'', stuId = ''3''\<rparr>, \<lparr>user.name = ''D'', stuId = ''4''\<rparr>] ''E''
      [Some ''c'', None, Some ''e'', Some ''f'']
      (\<lambda>i. if i = 0 then FetchResolved (JsonData (Some ''SUCCESS''))
           else if i = 2 then FetchResolved JsonRejected else FetchRejected)
      (queue_tasks [\<lparr>user.name = ''Z'', stuId = ''9''\<rparr>] ''E'' [Some ''z''] (\<lambda>_. FetchRejected)) []
      [Env (Settle 2), Env (Settle 0), Env Timer, Env (Settle 1), Env (Settle 0)])
   = Fulfilled (Report
       \<lparr>success = True, total = 4, successful = 1, failed = 3,
        results =
          [\<lparr>name = ''A'', status = check_mark @ '' Marked Present'', code = Some ''SUCCESS''\<rparr>,
           \<lparr>name = ''B'', status = cross_mark @ '' No session cookie'',
            code = Some ''COOKIE_ERROR''\<rparr>,
           \<lparr>name = ''C'', status = warning_sign @ '' Error'', code = None\<rparr>,
           \<lparr>name = ''D'', status = cross_mark @ '' Network error'', code = Some ''TIMEOUT''\<rparr>]\<rparr>)"
    by code_simp
  from success_count [rule_format, OF run] run show ?thesis by simp
qed

end
